theory Spec2Isabelle
  imports Main
begin

section \<open>Python string operations used by the server\<close>

text \<open>
  A decoded frame is a Python \<open>str\<close>. It is modelled as a \<open>string\<close> whose characters
  stand for code points below 256; code points from 256 on are outside the model.
\<close>

definition startswith :: "string \<Rightarrow> string \<Rightarrow> bool" where
  "startswith s p = (take (length p) s = p)"

text \<open>\<open>s.split(sep, maxsplit)\<close> for a one-character separator.\<close>

fun split_max :: "string \<Rightarrow> char \<Rightarrow> nat \<Rightarrow> string list" where
  "split_max s sep 0 = [s]"
| "split_max s sep (Suc n) =
     (if sep \<in> set s
      then takeWhile (\<lambda>c. c \<noteq> sep) s # split_max (tl (dropWhile (\<lambda>c. c \<noteq> sep) s)) sep n
      else [s])"

text \<open>
  \<open>str.isspace\<close> on one character: below 256 the whitespace code points are
  9 to 13, 28 to 32, 133 and 160.
\<close>

definition isspace :: "char \<Rightarrow> bool" where
  "isspace c = ((of_char c :: nat) \<in> {9, 10, 11, 12, 13, 28, 29, 30, 31, 32, 133, 160})"

text \<open>\<open>s.strip()\<close>: whitespace removed at both ends.\<close>

definition strip :: "string \<Rightarrow> string" where
  "strip s = rev (dropWhile isspace (rev (dropWhile isspace s)))"

text \<open>\<open>sep.join(xs)\<close>.\<close>

fun join :: "string \<Rightarrow> string list \<Rightarrow> string" where
  "join sep [] = []"
| "join sep [x] = x"
| "join sep (x # y # ys) = x @ sep @ join sep (y # ys)"

definition apostrophe :: string where
  "apostrophe = [CHR 0x27]"


section \<open>Python dictionaries\<close>

text \<open>
  A \<open>dict\<close> keeps its keys in insertion order, and the server iterates over it, so it is
  an association list: assignment replaces the value of a present key in place and
  appends an absent one; \<open>del\<close> drops the key.
\<close>

fun dict_set :: "'k \<Rightarrow> 'v \<Rightarrow> ('k \<times> 'v) list \<Rightarrow> ('k \<times> 'v) list" where
  "dict_set k v [] = [(k, v)]"
| "dict_set k v ((k', v') # d) =
     (if k' = k then (k, v) # d else (k', v') # dict_set k v d)"

definition dict_del :: "'k \<Rightarrow> ('k \<times> 'v) list \<Rightarrow> ('k \<times> 'v) list" where
  "dict_del k d = filter (\<lambda>kv. fst kv \<noteq> k) d"

definition dict_in :: "'k \<Rightarrow> ('k \<times> 'v) list \<Rightarrow> bool" where
  "dict_in k d = (map_of d k \<noteq> None)"


section \<open>Server state\<close>

text \<open>
  A socket and a thread are identified by a number. The fields \<open>server_socket\<close>,
  \<open>clients\<close>, \<open>client_threads\<close> and \<open>lock\<close> are those of \<open>ChatServer\<close>; \<open>lock\<close> is
  \<open>True\<close> while the \<open>threading.Lock\<close> is held. The environment of the server is made
  explicit: \<open>closed_socks\<close> are the sockets the server has closed, \<open>broken\<close> the sockets
  whose peer is gone, and \<open>trace\<close> records, in order, every \<open>send\<close> the server attempts
  (with \<open>True\<close> when it succeeded, \<open>False\<close> when it raised) and every \<open>close\<close>.
\<close>

type_synonym sock = nat
type_synonym thread = nat

datatype event = Send sock string bool | Close sock

record server =
  server_socket :: "sock option"
  clients :: "(string \<times> sock) list"
  client_threads :: "(string \<times> thread) list"
  lock :: bool
  closed_socks :: "sock list"
  broken :: "sock list"
  trace :: "event list"

text \<open>
  How a piece of code ends: it falls through (\<open>Normal\<close>), executes \<open>return\<close>
  (\<open>Returned\<close>), raises an exception (\<open>Raised\<close>), blocks for ever acquiring the lock
  (\<open>Blocked\<close>), or is still waiting in \<open>recv\<close> because the peer has sent nothing more
  (\<open>Waiting\<close>).
\<close>

datatype outcome = Normal | Returned | Raised | Blocked | Waiting

text \<open>What one \<open>recv(1024).decode('utf-8')\<close> yields; \<open>Data []\<close> is the end of the stream.\<close>

datatype recv = Data string | ConnectionReset | RecvError


section \<open>Sockets and the lock\<close>

definition can_send :: "server \<Rightarrow> sock \<Rightarrow> bool" where
  "can_send st s = (s \<notin> set (closed_socks st) \<and> s \<notin> set (broken st))"

text \<open>\<open>sock.send(m)\<close>: the first component tells whether it succeeded (\<open>False\<close>: it raised).\<close>

definition sock_send :: "sock \<Rightarrow> string \<Rightarrow> server \<Rightarrow> bool \<times> server" where
  "sock_send s m st = (can_send st s, st\<lparr>trace := trace st @ [Send s m (can_send st s)]\<rparr>)"

text \<open>\<open>try: sock.send(m)\<close> with \<open>except: pass\<close>.\<close>

definition try_send :: "sock \<Rightarrow> string \<Rightarrow> server \<Rightarrow> server" where
  "try_send s m st = snd (sock_send s m st)"

text \<open>A \<open>send\<close> outside any \<open>try\<close> of its own: a failure raises.\<close>

definition send_or_raise :: "sock \<Rightarrow> string \<Rightarrow> server \<Rightarrow> outcome \<times> server" where
  "send_or_raise s m st =
     (case sock_send s m st of (ok, st') \<Rightarrow> (if ok then Normal else Raised, st'))"

definition sock_close :: "sock \<Rightarrow> server \<Rightarrow> server" where
  "sock_close s st = st\<lparr>closed_socks := closed_socks st @ [s], trace := trace st @ [Close s]\<rparr>"

text \<open>
  \<open>with self.lock:\<close> around a body. \<open>threading.Lock\<close> is not reentrant: acquiring it
  while it is held blocks until it is released. The model runs one thread with no other
  thread running, so a lock that is held at the acquire is never released and the
  thread blocks for ever. Leaving the body by falling through, by \<open>return\<close> or by an
  exception releases the lock.
\<close>

definition with_lock :: "(server \<Rightarrow> outcome \<times> server) \<Rightarrow> server \<Rightarrow> outcome \<times> server" where
  "with_lock body st =
     (if lock st then (Blocked, st)
      else (case body (st\<lparr>lock := True\<rparr>) of
              (oc, st') \<Rightarrow> (if oc = Blocked then (oc, st') else (oc, st'\<lparr>lock := False\<rparr>))))"


section \<open>Router\<close>

text \<open>The loop of \<open>broadcast_status\<close> over \<open>self.clients.items()\<close>.\<close>

fun status_loop :: "(string \<times> sock) list \<Rightarrow> string \<Rightarrow> server \<Rightarrow> server" where
  "status_loop [] status_message st = st"
| "status_loop ((name, sock) # items) status_message st =
     status_loop items status_message (try_send sock (''STATUS:'' @ status_message) st)"

definition broadcast_status :: "string \<Rightarrow> server \<Rightarrow> outcome \<times> server" where
  "broadcast_status status_message st =
     with_lock (\<lambda>st. (Normal, status_loop (clients st) status_message st)) st"

text \<open>The loop of \<open>broadcast_message\<close>.\<close>

fun message_loop :: "(string \<times> sock) list \<Rightarrow> string \<Rightarrow> string \<Rightarrow> server \<Rightarrow> server" where
  "message_loop [] sender_name formatted_message st = st"
| "message_loop ((name, sock) # items) sender_name formatted_message st =
     message_loop items sender_name formatted_message
       (if name \<noteq> sender_name then try_send sock formatted_message st else st)"

definition broadcast_message :: "string \<Rightarrow> string \<Rightarrow> server \<Rightarrow> outcome \<times> server" where
  "broadcast_message sender_name message st =
     with_lock (\<lambda>st.
       (Normal, message_loop (clients st) sender_name
                  (''MESSAGE:'' @ sender_name @ '':'' @ message) st)) st"

definition send_client_list :: "string \<Rightarrow> server \<Rightarrow> outcome \<times> server" where
  "send_client_list client_name st =
     with_lock (\<lambda>st.
       case map_of (clients st) client_name of
         None \<Rightarrow> (Normal, st)
       | Some sock \<Rightarrow>
           (let available_clients = filter (\<lambda>name. name \<noteq> client_name) (map fst (clients st));
                client_list = (if available_clients \<noteq> [] then join '','' available_clients
                               else ''No other clients'')
            in (Normal, try_send sock (''CLIENT_LIST:'' @ client_list) st))) st"

text \<open>The \<open>except\<close> branch of \<open>send_message\<close>.\<close>

definition send_failed :: "string \<Rightarrow> server \<Rightarrow> server" where
  "send_failed sender_name st =
     (case map_of (clients st) sender_name of
        None \<Rightarrow> st
      | Some sender_socket \<Rightarrow> try_send sender_socket ''ERROR:Failed to send message'' st)"

definition send_message :: "string \<Rightarrow> string \<Rightarrow> string \<Rightarrow> server \<Rightarrow> outcome \<times> server" where
  "send_message sender_name target_name message st =
     with_lock (\<lambda>st.
       case map_of (clients st) target_name of
         None \<Rightarrow>
           (case map_of (clients st) sender_name of
              None \<Rightarrow> (Normal, st)
            | Some sender_socket \<Rightarrow>
                (Normal, try_send sender_socket
                   (''ERROR:Client '' @ apostrophe @ target_name @ apostrophe @ '' not found'') st))
       | Some target_socket \<Rightarrow>
           (case sock_send target_socket (''MESSAGE:'' @ sender_name @ '':'' @ message) st of
              (sent, st1) \<Rightarrow>
                if sent then
                  (case map_of (clients st1) sender_name of
                     None \<Rightarrow> (Normal, st1)
                   | Some sender_socket \<Rightarrow>
                       (case sock_send sender_socket ''MESSAGE_SENT'' st1 of
                          (acked, st2) \<Rightarrow>
                            if acked then (Normal, st2) else (Normal, send_failed sender_name st2)))
                else (Normal, send_failed sender_name st1))) st"

definition remove_client :: "string \<Rightarrow> server \<Rightarrow> outcome \<times> server" where
  "remove_client client_name st =
     with_lock (\<lambda>st.
       case map_of (clients st) client_name of
         None \<Rightarrow> (Normal, st)
       | Some sock \<Rightarrow>
           (let st1 = sock_close sock st;
                st2 = st1\<lparr>clients := dict_del client_name (clients st1)\<rparr>;
                st3 = (if dict_in client_name (client_threads st2)
                       then st2\<lparr>client_threads := dict_del client_name (client_threads st2)\<rparr>
                       else st2)
            in broadcast_status (client_name @ '' left the server'') st3)) st"


section \<open>Shutdown\<close>

text \<open>The loop of \<open>stop\<close> over \<open>self.clients.values()\<close>.\<close>

fun close_loop :: "sock list \<Rightarrow> server \<Rightarrow> server" where
  "close_loop [] st = st"
| "close_loop (sock # socks) st = close_loop socks (sock_close sock st)"

definition stop :: "server \<Rightarrow> outcome \<times> server" where
  "stop st =
     (case with_lock (\<lambda>st.
             (Normal, (close_loop (map snd (clients st)) st)\<lparr>clients := [], client_threads := []\<rparr>)) st of
        (oc, st1) \<Rightarrow>
          if oc = Blocked then (Blocked, st1)
          else (case server_socket st1 of
                  None \<Rightarrow> (Normal, st1)
                | Some listener \<Rightarrow> (Normal, sock_close listener st1)))"


section \<open>Connection handler\<close>

text \<open>
  \<open>handle_client\<close> is given its socket, the thread that runs it (what
  \<open>threading.current_thread()\<close> returns; the \<open>address\<close> argument of the source is only
  printed) and the successive results of \<open>recv\<close> on its socket.
\<close>

text \<open>One pass of the body of the \<open>while True\<close> loop, for a non-empty message.\<close>

definition dispatch :: "string \<Rightarrow> sock \<Rightarrow> string \<Rightarrow> server \<Rightarrow> outcome \<times> server" where
  "dispatch client_name client_socket message st =
     (if startswith message ''CHAT:'' then
        (let parts = split_max message CHR '':'' 2 in
         if length parts = 3
         then send_message client_name (strip (parts ! 1)) (parts ! 2) st
         else send_or_raise client_socket ''ERROR:Invalid CHAT format'' st)
      else if message = ''LIST'' then send_client_list client_name st
      else if startswith message ''BROADCAST:'' then
        broadcast_message client_name (split_max message CHR '':'' 1 ! 1) st
      else send_or_raise client_socket ''ERROR:Unknown command'' st)"

text \<open>
  The \<open>while True\<close> loop over what the peer sends. An empty message ends the loop
  (\<open>break\<close>); when the peer has sent nothing more the handler stays in \<open>recv\<close>.
\<close>

fun receive_loop :: "string \<Rightarrow> sock \<Rightarrow> recv list \<Rightarrow> server \<Rightarrow> outcome \<times> server" where
  "receive_loop client_name client_socket [] st = (Waiting, st)"
| "receive_loop client_name client_socket (ConnectionReset # rs) st = (Raised, st)"
| "receive_loop client_name client_socket (RecvError # rs) st = (Raised, st)"
| "receive_loop client_name client_socket (Data message # rs) st =
     (if message = [] then (Normal, st)
      else (let r = dispatch client_name client_socket message st
            in if fst r = Normal then receive_loop client_name client_socket rs (snd r) else r))"

text \<open>The registration of \<open>client_name\<close>: the locked check and insert, the reply, the notice.\<close>

definition register :: "string \<Rightarrow> sock \<Rightarrow> thread \<Rightarrow> server \<Rightarrow> outcome \<times> server" where
  "register client_name client_socket tid st =
     (case with_lock (\<lambda>st.
             if dict_in client_name (clients st) then
               (case sock_send client_socket ''ERROR:Name already taken'' st of
                  (ok, st') \<Rightarrow> if ok then (Returned, sock_close client_socket st') else (Raised, st'))
             else (Normal, st\<lparr>clients := dict_set client_name client_socket (clients st),
                               client_threads := dict_set client_name tid (client_threads st)\<rparr>)) st of
        (oc, st1) \<Rightarrow>
          if oc = Normal then
            (case sock_send client_socket ''REGISTERED'' st1 of
               (ok, st2) \<Rightarrow>
                 if ok then broadcast_status (client_name @ '' joined the server'') st2
                 else (Raised, st2))
          else (oc, st1))"

text \<open>
  The \<open>finally\<close> clause for a handler that has assigned \<open>client_name\<close>. It does not run
  while the body is blocked or still waiting in \<open>recv\<close>. Every exception of the body
  has been caught by then. \<open>if client_name:\<close> is false for the empty string.
\<close>

definition finally_remove :: "string \<Rightarrow> outcome \<times> server \<Rightarrow> outcome \<times> server" where
  "finally_remove client_name r =
     (case r of (oc, st) \<Rightarrow>
        if oc = Blocked \<or> oc = Waiting then (oc, st)
        else if client_name \<noteq> [] then remove_client client_name st
        else (Normal, st))"

definition handle_client :: "sock \<Rightarrow> thread \<Rightarrow> recv list \<Rightarrow> server \<Rightarrow> outcome \<times> server" where
  "handle_client client_socket tid script st =
     (case script of
        [] \<Rightarrow> (Waiting, st)
      | ConnectionReset # rs \<Rightarrow> (Normal, st)
      | RecvError # rs \<Rightarrow> (Normal, st)
      | Data name_message # rs \<Rightarrow>
          if name_message = [] then (Normal, st)
          else if startswith name_message ''REGISTER:'' then
            (let client_name = strip (split_max name_message CHR '':'' 1 ! 1)
             in finally_remove client_name
                  (case register client_name client_socket tid st of
                     (oc, st1) \<Rightarrow>
                       if oc = Normal then receive_loop client_name client_socket rs st1
                       else (oc, st1)))
          else (case sock_send client_socket ''ERROR:Must register first'' st of
                  (ok, st') \<Rightarrow> (Normal, if ok then sock_close client_socket st' else st')))"


section \<open>Initial and example states\<close>

text \<open>The state that \<open>ChatServer.__init__\<close> builds: no listener yet, nobody registered, the lock free.\<close>

definition new_server :: server where
  "new_server = \<lparr>server_socket = None, clients = [], client_threads = [], lock = False,
      closed_socks = [], broken = [], trace = []\<rparr>"

text \<open>A running server (listener 0) with clients A and B on sockets 1 and 2.\<close>

definition two_clients :: server where
  "two_clients = new_server\<lparr>server_socket := Some 0,
      clients := [(''A'', 1), (''B'', 2)], client_threads := [(''A'', 7), (''B'', 8)]\<rparr>"

text \<open>The same with a third client C on socket 3, and the peer of B gone.\<close>

definition three_clients :: server where
  "three_clients = new_server\<lparr>server_socket := Some 0,
      clients := [(''A'', 1), (''B'', 2), (''C'', 3)],
      client_threads := [(''A'', 7), (''B'', 8), (''C'', 9)], broken := [2]\<rparr>"

text \<open>
  The registry as the notice of a client C (socket 3) may find it when another client M
  (socket 4) has registered between the insert of C and the notice; the peer of A is gone.
\<close>

definition joined_meanwhile :: server where
  "joined_meanwhile = two_clients\<lparr>clients := [(''A'', 1), (''C'', 3), (''M'', 4)], broken := [1]\<rparr>"


section \<open>Basic facts\<close>

lemmas handler_defs =
  handle_client_def register_def finally_remove_def remove_client_def receive_loop.simps
  with_lock_def sock_send_def sock_close_def try_send_def can_send_def
  dict_in_def dict_del_def broadcast_status_def
  startswith_def strip_def isspace_def new_server_def Let_def

lemmas example_defs = two_clients_def three_clients_def new_server_def can_send_def dict_in_def
  strip_def isspace_def

subsection \<open>Strings\<close>

lemma split_max_first:
  "sep \<notin> set p \<Longrightarrow> split_max (p @ sep # rest) sep (Suc n) = p # split_max rest sep n"
proof -
  assume "sep \<notin> set p"
  then have "\<And>c. c \<in> set p \<Longrightarrow> c \<noteq> sep" by blast
  then have "takeWhile (\<lambda>c. c \<noteq> sep) (p @ sep # rest) = p"
    and "dropWhile (\<lambda>c. c \<noteq> sep) (p @ sep # rest) = sep # rest"
    by (simp_all add: takeWhile_append2 dropWhile_append2)
  then show ?thesis by simp
qed

lemma split_max_none: "sep \<notin> set s \<Longrightarrow> split_max s sep n = [s]"
  by (cases n) simp_all

lemma register_name: "split_max (''REGISTER:'' @ n) CHR '':'' 1 ! 1 = n"
  using split_max_first [of "CHR '':''" "''REGISTER''" n 0] by simp

lemma chat_parts:
  "CHR '':'' \<notin> set t \<Longrightarrow>
     split_max (''CHAT:'' @ t @ '':'' @ c) CHR '':'' 2 = [''CHAT'', t, c]"
  using split_max_first [of "CHR '':''" "''CHAT''" "t @ '':'' @ c" "Suc 0"]
        split_max_first [of "CHR '':''" t c 0]
  by (simp add: numeral_2_eq_2)

lemma chat_parts_short:
  "CHR '':'' \<notin> set r \<Longrightarrow> split_max (''CHAT:'' @ r) CHR '':'' 2 = [''CHAT'', r]"
  using split_max_first [of "CHR '':''" "''CHAT''" r "Suc 0"]
        split_max_none [of "CHR '':''" r "Suc 0"]
  by (simp add: numeral_2_eq_2)

lemma strip_empty_iff: "strip n = [] \<longleftrightarrow> (\<forall>c \<in> set n. isspace c)"
proof
  assume "strip n = []"
  then have "\<forall>c \<in> set (dropWhile isspace n). isspace c"
    by (simp add: strip_def)
  then have "dropWhile isspace n = []"
    using hd_dropWhile [of isspace n] hd_in_set [of "dropWhile isspace n"] by blast
  then show "\<forall>c \<in> set n. isspace c"
    by simp
next
  assume "\<forall>c \<in> set n. isspace c"
  then show "strip n = []"
    by (auto simp: strip_def dest: set_dropWhileD)
qed

subsection \<open>Dictionaries\<close>

lemma dict_set_absent: "\<not> dict_in k d \<Longrightarrow> dict_set k v d = d @ [(k, v)]"
  by (induction d) (auto simp: dict_in_def)

lemma dict_del_absent: "\<not> dict_in k d \<Longrightarrow> dict_del k d = d"
  by (induction d) (auto simp: dict_in_def dict_del_def split: if_splits)

lemma distinct_snd_key:
  assumes "distinct (map snd xs)" and "(a, s) \<in> set xs" and "(b, s) \<in> set xs"
  shows "a = b"
proof -
  from assms(1) have "inj_on snd (set xs)" by (simp add: distinct_map)
  from inj_onD [OF this _ assms(2,3)] show ?thesis by simp
qed

subsection \<open>State, loops and the lock\<close>

lemma can_send_upd [simp]:
  "can_send (st\<lparr>trace := t\<rparr>) s = can_send st s"
  "can_send (st\<lparr>lock := b\<rparr>) s = can_send st s"
  "can_send (st\<lparr>clients := c\<rparr>) s = can_send st s"
  "can_send (st\<lparr>client_threads := ct\<rparr>) s = can_send st s"
  by (simp_all add: can_send_def)

lemma unlock_free: "\<not> lock st \<Longrightarrow> st\<lparr>lock := False\<rparr> = st"
  by (cases st) simp

lemma status_loop_trace:
  "status_loop items msg st =
     st\<lparr>trace := trace st @
        map (\<lambda>(name, sock). Send sock (''STATUS:'' @ msg) (can_send st sock)) items\<rparr>"
proof (induction items arbitrary: st)
  case Nil
  show ?case by simp
next
  case (Cons item items)
  obtain name sock where item: "item = (name, sock)" by (cases item)
  show ?case
    by (simp add: item Cons.IH try_send_def sock_send_def)
qed

lemma message_loop_trace:
  "message_loop items sender fm st =
     st\<lparr>trace := trace st @ map (\<lambda>(name, sock). Send sock fm (can_send st sock))
                                (filter (\<lambda>(name, sock). name \<noteq> sender) items)\<rparr>"
proof (induction items arbitrary: st)
  case Nil
  show ?case by simp
next
  case (Cons item items)
  obtain name sock where item: "item = (name, sock)" by (cases item)
  show ?case
    by (simp add: item Cons.IH try_send_def sock_send_def)
qed

lemma close_loop_trace:
  "close_loop socks st =
     st\<lparr>closed_socks := closed_socks st @ socks, trace := trace st @ map Close socks\<rparr>"
  by (induction socks arbitrary: st) (simp_all add: sock_close_def)

lemma broadcast_status_free:
  "\<not> lock st \<Longrightarrow> broadcast_status msg st =
     (Normal, st\<lparr>trace := trace st @
        map (\<lambda>(name, sock). Send sock (''STATUS:'' @ msg) (can_send st sock)) (clients st)\<rparr>)"
  by (simp add: broadcast_status_def with_lock_def status_loop_trace unlock_free)

lemma broadcast_status_held: "lock st \<Longrightarrow> broadcast_status msg st = (Blocked, st)"
  by (simp add: broadcast_status_def with_lock_def)

text \<open>
  \<open>remove_client\<close> calls \<open>broadcast_status\<close> inside its own \<open>with self.lock:\<close>, so for a
  registered name it closes the socket, deletes the entries and then blocks on the lock
  it holds: nothing is sent, and the lock stays held.
\<close>

lemma remove_client_registered:
  assumes "\<not> lock st" and "map_of (clients st) name = Some sock"
  shows "remove_client name st =
     (Blocked, st\<lparr>clients := dict_del name (clients st),
                  client_threads := dict_del name (client_threads st),
                  lock := True,
                  closed_socks := closed_socks st @ [sock],
                  trace := trace st @ [Close sock]\<rparr>)"
  using assms
  by (simp add: remove_client_def with_lock_def sock_close_def broadcast_status_held
      dict_del_absent Let_def)

subsection \<open>Frames\<close>

lemma handle_client_registered:
  assumes "\<not> lock st" and "\<not> dict_in (strip n) (clients st)" and "can_send st sock"
  shows "handle_client sock tid [Data (''REGISTER:'' @ n)] st =
     (Waiting, st\<lparr>clients := clients st @ [(strip n, sock)],
                  client_threads := dict_set (strip n) tid (client_threads st),
                  trace := trace st @ Send sock ''REGISTERED'' True #
                    map (\<lambda>(name, s). Send s (''STATUS:'' @ strip n @ '' joined the server'') (can_send st s))
                      (clients st @ [(strip n, sock)])\<rparr>)"
proof -
  have reg: "register (strip n) sock tid st =
     (Normal, st\<lparr>clients := clients st @ [(strip n, sock)],
                  client_threads := dict_set (strip n) tid (client_threads st),
                  trace := trace st @ Send sock ''REGISTERED'' True #
                    map (\<lambda>(name, s). Send s (''STATUS:'' @ strip n @ '' joined the server'') (can_send st s))
                      (clients st @ [(strip n, sock)])\<rparr>)"
    using assms
    by (simp add: register_def with_lock_def sock_send_def dict_set_absent
        broadcast_status_free unlock_free)
  define frame where "frame = ''REGISTER:'' @ n"
  have frame: "frame \<noteq> []" "startswith frame ''REGISTER:''"
    "split_max frame CHR '':'' 1 ! 1 = n"
    unfolding frame_def using register_name [of n] by (simp_all add: startswith_def)
  have "handle_client sock tid [Data frame] st = finally_remove (strip n)
     (case register (strip n) sock tid st of
        (oc, st1) \<Rightarrow> if oc = Normal then receive_loop (strip n) sock [] st1 else (oc, st1))"
    unfolding handle_client_def using frame by (simp add: Let_def del: One_nat_def)
  then show ?thesis
    unfolding frame_def by (simp add: reg finally_remove_def)
qed

lemma dispatch_chat:
  assumes "CHR '':'' \<notin> set t"
  shows "dispatch name sock (''CHAT:'' @ t @ '':'' @ c) st = send_message name (strip t) c st"
proof -
  define frame where "frame = ''CHAT:'' @ t @ '':'' @ c"
  have frame: "startswith frame ''CHAT:''" "split_max frame CHR '':'' 2 = [''CHAT'', t, c]"
    unfolding frame_def using chat_parts [OF assms, of c] by (simp_all add: startswith_def)
  have "dispatch name sock frame st = send_message name (strip t) c st"
    unfolding dispatch_def using frame by (simp add: Let_def)
  then show ?thesis unfolding frame_def .
qed

lemma dispatch_chat_short:
  assumes "CHR '':'' \<notin> set r"
  shows "dispatch name sock (''CHAT:'' @ r) st =
           send_or_raise sock ''ERROR:Invalid CHAT format'' st"
proof -
  define frame where "frame = ''CHAT:'' @ r"
  have frame: "startswith frame ''CHAT:''" "split_max frame CHR '':'' 2 = [''CHAT'', r]"
    unfolding frame_def using chat_parts_short [OF assms] by (simp_all add: startswith_def)
  have "dispatch name sock frame st = send_or_raise sock ''ERROR:Invalid CHAT format'' st"
    unfolding dispatch_def using frame by (simp add: Let_def)
  then show ?thesis unfolding frame_def .
qed


section \<open>Registration\<close>

text \<open>
  A client that registers as \<open>A\<close> on an empty server is itself sent the notice of its
  own join: \<open>broadcast_status\<close> runs after the insert and skips nobody.
\<close>

theorem join_notice_sent_to_new_client:
  "Send 1 ''STATUS:A joined the server'' True
     \<in> set (trace (snd (handle_client 1 7 [Data ''REGISTER:A''] new_server)))"
  by (simp add: handler_defs)

text \<open>
  C1 (amended): after a successful registration of the name \<open>N\<close> (the stripped name part of
  the frame, not yet in the registry, with \<open>REGISTERED\<close> delivered), the server sends
  \<open>STATUS:N joined the server\<close> to every current registry entry, the newly registered
  client \<open>N\<close> included: \<open>N\<close> does receive the notice of its own join. First for the handler
  run on its own: every entry registered before and the entry of \<open>N\<close> are sent the notice.
  Then for the notice itself, whatever state it finds when it takes the lock (other
  handlers may have changed the registry since the insert): every entry the registry
  then holds is sent it, with no exception.
\<close>

theorem join_notice_reaches_all:
  assumes "\<not> lock st" and "\<not> dict_in (strip n) (clients st)" and "can_send st sock"
  shows "((name, s) \<in> set (clients st) \<or> (name, s) = (strip n, sock) \<longrightarrow>
            Send s (''STATUS:'' @ strip n @ '' joined the server'') (can_send st s)
              \<in> set (drop (length (trace st))
                      (trace (snd (handle_client sock tid [Data (''REGISTER:'' @ n)] st)))))
       \<and> (\<not> lock st' \<and> (name', s') \<in> set (clients st') \<longrightarrow>
            Send s' (''STATUS:'' @ strip n @ '' joined the server'') (can_send st' s')
              \<in> set (drop (length (trace st'))
                      (trace (snd (broadcast_status (strip n @ '' joined the server'') st')))))"
proof -
  have one: "Send s (''STATUS:'' @ strip n @ '' joined the server'') (can_send st s)
              \<in> set (drop (length (trace st))
                      (trace (snd (handle_client sock tid [Data (''REGISTER:'' @ n)] st))))"
    if "(name, s) \<in> set (clients st) \<or> (name, s) = (strip n, sock)"
    using that by (subst handle_client_registered [OF assms]) force
  have any: "Send s' (''STATUS:'' @ strip n @ '' joined the server'') (can_send st' s')
              \<in> set (drop (length (trace st'))
                      (trace (snd (broadcast_status (strip n @ '' joined the server'') st'))))"
    if "\<not> lock st'" and "(name', s') \<in> set (clients st')"
    using that by (simp add: broadcast_status_free) force
  from one any show ?thesis by blast
qed

theorem join_notice_reaches_all_witness:
  "\<not> lock two_clients \<and> \<not> dict_in (strip '' C '') (clients two_clients) \<and> can_send two_clients 3
   \<and> Send 3 ''STATUS:C joined the server'' True
       \<in> set (trace (snd (handle_client 3 9 [Data ''REGISTER: C ''] two_clients)))
   \<and> Send 2 ''STATUS:C joined the server'' True
       \<in> set (trace (snd (handle_client 3 9 [Data ''REGISTER: C ''] two_clients)))
   \<and> \<not> lock joined_meanwhile \<and> (''C'', 3) \<in> set (clients joined_meanwhile)
   \<and> Send 3 ''STATUS:C joined the server'' True
       \<in> set (trace (snd (broadcast_status ''C joined the server'' joined_meanwhile)))"
proof -
  have h: "\<not> lock two_clients" "\<not> dict_in (strip '' C '') (clients two_clients)"
    "can_send two_clients 3"
    by (simp_all add: example_defs)
  have k: "\<not> lock joined_meanwhile" "(''C'', 3) \<in> set (clients joined_meanwhile)"
    by (simp_all add: joined_meanwhile_def example_defs)
  from join_notice_reaches_all [OF h, of "''C''" 3 9 joined_meanwhile "''C''" 3]
       join_notice_reaches_all [OF h, of "''B''" 2 9 joined_meanwhile "''C''" 3] h k
  show ?thesis
    by (simp add: joined_meanwhile_def example_defs)
qed

text \<open>
  A \<open>REGISTER:\<close> frame whose name part is one blank is accepted: the registry gets an
  entry under the empty name.
\<close>

theorem blank_name_registered:
  "clients (snd (handle_client 1 7 [Data ''REGISTER: ''] new_server)) = [([], 1)]"
  by (simp add: handler_defs)

text \<open>
  C3 (amended): the name accepted by a registration and entered as a key in the registry is
  the name part of the \<open>REGISTER\<close> frame with the whitespace at both ends stripped. That key
  is the empty string exactly when the name part is empty or whitespace-only, and such a
  frame does yield a registry entry when the empty name is not registered yet.
\<close>

theorem registered_name_is_stripped:
  assumes "\<not> lock st" and "\<not> dict_in (strip n) (clients st)" and "can_send st sock"
  shows "clients (snd (handle_client sock tid [Data (''REGISTER:'' @ n)] st))
           = clients st @ [(strip n, sock)]
       \<and> (strip n = [] \<longleftrightarrow> (\<forall>c \<in> set n. isspace c))"
  by (subst handle_client_registered [OF assms]) (simp add: strip_empty_iff)

theorem registered_name_is_stripped_witness:
  "\<not> lock two_clients \<and> \<not> dict_in (strip ''  '') (clients two_clients) \<and> can_send two_clients 3
   \<and> clients (snd (handle_client 3 9 [Data ''REGISTER:  ''] two_clients)) =
       [(''A'', 1), (''B'', 2), ([], 3)]"
proof -
  have h: "\<not> lock two_clients" "\<not> dict_in (strip ''  '') (clients two_clients)"
    "can_send two_clients 3"
    by (simp_all add: example_defs)
  from registered_name_is_stripped [OF h, of 9] h show ?thesis
    by (simp add: example_defs)
qed

text \<open>
  C5 (the code at a failing input): \<open>A\<close> is registered on socket 1 and a second connection,
  socket 2, sends \<open>REGISTER:A\<close>. The server replies \<open>ERROR:Name already taken\<close> and closes
  socket 2; but \<open>client_name\<close> has been assigned by then, so the \<open>finally\<close> clause calls
  \<open>remove_client\<close> for it: the socket of the first client is closed and its registry entry
  deleted, and the handler then blocks on the lock it holds. The registry is empty
  afterwards, not unchanged.
\<close>

theorem duplicate_register_evicts_holder:
  "handle_client 2 8 [Data ''REGISTER:A'']
      (new_server\<lparr>clients := [(''A'', 1)], client_threads := [(''A'', 7)]\<rparr>)
   = (Blocked, \<lparr>server_socket = None, clients = [], client_threads = [],
        lock = True, closed_socks = [2, 1], broken = [],
        trace = [Send 2 ''ERROR:Name already taken'' True, Close 2, Close 1]\<rparr>)"
  by (simp add: handler_defs)


section \<open>Disconnection\<close>

text \<open>
  C2 (the code at a failing input): \<open>B\<close> is registered on socket 2; a client registers as
  \<open>A\<close> on socket 1 and its stream ends. The handler removes the entry of \<open>A\<close> and closes
  socket 1, then blocks for ever in \<open>broadcast_status\<close> on the lock that \<open>remove_client\<close>
  still holds: no \<open>STATUS:A left the server\<close> is sent to \<open>B\<close>, the handler does not end,
  and the lock stays held.
\<close>

theorem leave_notice_blocked:
  "handle_client 1 7 [Data ''REGISTER:A'', Data []]
      (new_server\<lparr>clients := [(''B'', 2)], client_threads := [(''B'', 8)]\<rparr>)
   = (Blocked, \<lparr>server_socket = None, clients = [(''B'', 2)], client_threads = [(''B'', 8)],
        lock = True, closed_socks = [1], broken = [],
        trace = [Send 1 ''REGISTERED'' True, Send 2 ''STATUS:A joined the server'' True,
                 Send 1 ''STATUS:A joined the server'' True, Close 1]\<rparr>)"
  by (simp add: handler_defs)

text \<open>
  A client registered under the empty name is not removed at all when its stream ends:
  \<open>if client_name:\<close> is false, the entry stays and the socket is not closed.
\<close>

lemma empty_name_left_registered:
  "handle_client 1 7 [Data ''REGISTER:'', Data []] new_server
   = (Normal, \<lparr>server_socket = None, clients = [([], 1)], client_threads = [([], 7)],
        lock = False, closed_socks = [], broken = [],
        trace = [Send 1 ''REGISTERED'' True, Send 1 ''STATUS: joined the server'' True]\<rparr>)"
  by (simp add: handler_defs)


section \<open>Shutdown\<close>

text \<open>
  With listener 0 and clients on sockets 1 and 2, \<open>stop\<close> closes the two client sockets
  first and the listening socket last.
\<close>

theorem stop_closes_listener_last:
  "server_socket two_clients = Some 0
   \<and> trace (snd (stop two_clients)) = [Close 1, Close 2, Close 0]"
  by (simp add: stop_def with_lock_def sock_close_def two_clients_def new_server_def)

text \<open>
  C4 (amended): on shutdown the server performs its cleanup in this order: first, while
  holding the registry lock, it closes every live client connection (in registry order)
  and clears the registry; then, the lock released, it closes the listening socket if
  there is one. Nothing is closed as long as the lock cannot be acquired.
\<close>

theorem stop_closes_clients_then_listener:
  "(\<not> lock st \<longrightarrow>
      stop st = (Normal, st\<lparr>clients := [], client_threads := [],
         closed_socks := closed_socks st @ map snd (clients st)
            @ (case server_socket st of None \<Rightarrow> [] | Some listener \<Rightarrow> [listener]),
         trace := trace st @ map Close (map snd (clients st))
            @ (case server_socket st of None \<Rightarrow> [] | Some listener \<Rightarrow> [Close listener])\<rparr>))
   \<and> (lock st \<longrightarrow> stop st = (Blocked, st))"
proof (cases "lock st")
  case True
  then show ?thesis by (simp add: stop_def with_lock_def)
next
  case False
  then have "st\<lparr>lock := False\<rparr> = st" by (rule unlock_free)
  with False show ?thesis
    by (cases st) (simp add: stop_def with_lock_def close_loop_trace sock_close_def
        split: option.split)
qed

theorem stop_closes_clients_then_listener_witness:
  "\<not> lock three_clients \<and>
   stop three_clients = (Normal, three_clients\<lparr>clients := [], client_threads := [],
      closed_socks := [1, 2, 3, 0], trace := [Close 1, Close 2, Close 3, Close 0]\<rparr>)
   \<and> lock (three_clients\<lparr>lock := True\<rparr>)
   \<and> stop (three_clients\<lparr>lock := True\<rparr>) = (Blocked, three_clients\<lparr>lock := True\<rparr>)"
  using stop_closes_clients_then_listener [of three_clients]
    stop_closes_clients_then_listener [of "three_clients\<lparr>lock := True\<rparr>"]
  by (simp add: example_defs)


section \<open>Routing\<close>

text \<open>
  C6: \<open>send_message sender target content\<close>, the lock being free, never lets a write
  failure out (it ends normally). If \<open>target\<close> is not registered it sends
  \<open>ERROR:Client '<target>' not found\<close> to \<open>sender\<close>, and does nothing when \<open>sender\<close> is not
  registered either. If \<open>target\<close> is registered it sends \<open>MESSAGE:<sender>:<content>\<close> to
  the target; when that send succeeds it sends \<open>MESSAGE_SENT\<close> to \<open>sender\<close> (and, should
  that acknowledgement itself fail, tries \<open>ERROR:Failed to send message\<close>); when the send
  to the target fails it sends \<open>ERROR:Failed to send message\<close> to \<open>sender\<close> and no
  acknowledgement. A sender that is not registered is sent nothing.
\<close>

theorem unicast_routing:
  assumes "\<not> lock st"
  shows "fst (send_message sender target content st) = Normal
    \<and> (map_of (clients st) target = None \<and> map_of (clients st) sender = None \<longrightarrow>
         send_message sender target content st = (Normal, st))
    \<and> (map_of (clients st) target = None \<and> map_of (clients st) sender = Some ss \<longrightarrow>
         send_message sender target content st =
           (Normal, st\<lparr>trace := trace st @
              [Send ss (''ERROR:Client '' @ apostrophe @ target @ apostrophe @ '' not found'')
                 (can_send st ss)]\<rparr>))
    \<and> (map_of (clients st) target = Some ts \<and> can_send st ts \<and>
       map_of (clients st) sender = Some ss \<longrightarrow>
         send_message sender target content st =
           (Normal, st\<lparr>trace := trace st @
              [Send ts (''MESSAGE:'' @ sender @ '':'' @ content) True,
               Send ss ''MESSAGE_SENT'' (can_send st ss)]
              @ (if can_send st ss then [] else [Send ss ''ERROR:Failed to send message'' False])\<rparr>))
    \<and> (map_of (clients st) target = Some ts \<and> \<not> can_send st ts \<and>
       map_of (clients st) sender = Some ss \<longrightarrow>
         send_message sender target content st =
           (Normal, st\<lparr>trace := trace st @
              [Send ts (''MESSAGE:'' @ sender @ '':'' @ content) False,
               Send ss ''ERROR:Failed to send message'' (can_send st ss)]\<rparr>))
    \<and> (map_of (clients st) target = Some ts \<and> map_of (clients st) sender = None \<longrightarrow>
         send_message sender target content st =
           (Normal, st\<lparr>trace := trace st @
              [Send ts (''MESSAGE:'' @ sender @ '':'' @ content) (can_send st ts)]\<rparr>))"
  using assms
  by (auto simp: send_message_def with_lock_def sock_send_def try_send_def send_failed_def
      unlock_free split: option.split)

theorem unicast_routing_witness:
  "\<not> lock three_clients
   \<and> send_message ''A'' ''C'' ''hello'' three_clients =
       (Normal, three_clients\<lparr>trace := [Send 3 ''MESSAGE:A:hello'' True, Send 1 ''MESSAGE_SENT'' True]\<rparr>)
   \<and> send_message ''A'' ''B'' ''hello'' three_clients =
       (Normal, three_clients\<lparr>trace := [Send 2 ''MESSAGE:A:hello'' False,
                                          Send 1 ''ERROR:Failed to send message'' True]\<rparr>)
   \<and> send_message ''A'' ''Z'' ''hello'' three_clients =
       (Normal, three_clients\<lparr>trace :=
          [Send 1 (''ERROR:Client '' @ apostrophe @ ''Z'' @ apostrophe @ '' not found'') True]\<rparr>)
   \<and> send_message ''Y'' ''Z'' ''hello'' three_clients = (Normal, three_clients)"
proof -
  have h: "\<not> lock three_clients" by (simp add: example_defs)
  from unicast_routing [OF h, of "''A''" "''C''" "''hello''" 1 3]
       unicast_routing [OF h, of "''A''" "''B''" "''hello''" 1 2]
       unicast_routing [OF h, of "''A''" "''Z''" "''hello''" 1 0]
       unicast_routing [OF h, of "''Y''" "''Z''" "''hello''" 0 0] h
  show ?thesis
    by (simp add: example_defs)
qed

text \<open>
  C7: a \<open>CHAT\<close> frame is split at its first two colons only: with no colon in the target
  part, \<open>CHAT:<target>:<content>\<close> is routed as a unicast to the (stripped) target with
  the whole of \<open>content\<close>, colons included. A \<open>CHAT\<close> frame with fewer than two colons is
  answered with \<open>ERROR:Invalid CHAT format\<close> (the client's socket being writable) and
  nothing else changes: no registry mutation, no close, and the receive loop goes on
  with the next input.
\<close>

theorem chat_frame_split:
  assumes "CHR '':'' \<notin> set target" and "CHR '':'' \<notin> set rest" and "can_send st sock"
  shows "dispatch name sock (''CHAT:'' @ target @ '':'' @ content) st
           = send_message name (strip target) content st
       \<and> dispatch name sock (''CHAT:'' @ rest) st
           = (Normal, st\<lparr>trace := trace st @ [Send sock ''ERROR:Invalid CHAT format'' True]\<rparr>)
       \<and> receive_loop name sock (Data (''CHAT:'' @ rest) # rs) st
           = receive_loop name sock rs
               (st\<lparr>trace := trace st @ [Send sock ''ERROR:Invalid CHAT format'' True]\<rparr>)"
proof -
  have short: "dispatch name sock (''CHAT:'' @ rest) st
           = (Normal, st\<lparr>trace := trace st @ [Send sock ''ERROR:Invalid CHAT format'' True]\<rparr>)"
    using assms(3)
    by (subst dispatch_chat_short [OF assms(2)]) (simp add: send_or_raise_def sock_send_def)
  have "''CHAT:'' @ rest \<noteq> []" by simp
  then have "receive_loop name sock (Data (''CHAT:'' @ rest) # rs) st
           = receive_loop name sock rs
               (st\<lparr>trace := trace st @ [Send sock ''ERROR:Invalid CHAT format'' True]\<rparr>)"
    by (simp only: receive_loop.simps short Let_def fst_conv snd_conv if_True if_False refl)
  with short dispatch_chat [OF assms(1)] show ?thesis by blast
qed

theorem chat_frame_split_witness:
  "CHR '':'' \<notin> set ''B'' \<and> CHR '':'' \<notin> set ''hello'' \<and> can_send two_clients 1
   \<and> dispatch ''A'' 1 ''CHAT:B:hi:there'' two_clients
       = (Normal, two_clients\<lparr>trace := [Send 2 ''MESSAGE:A:hi:there'' True,
                                        Send 1 ''MESSAGE_SENT'' True]\<rparr>)
   \<and> dispatch ''A'' 1 ''CHAT:hello'' two_clients
       = (Normal, two_clients\<lparr>trace := [Send 1 ''ERROR:Invalid CHAT format'' True]\<rparr>)
   \<and> receive_loop ''A'' 1 [Data ''CHAT:hello''] two_clients
       = (Waiting, two_clients\<lparr>trace := [Send 1 ''ERROR:Invalid CHAT format'' True]\<rparr>)"
proof -
  have h: "CHR '':'' \<notin> set ''B''" "CHR '':'' \<notin> set ''hello''" "can_send two_clients 1"
    by (simp_all add: example_defs)
  have "send_message ''A'' (strip ''B'') ''hi:there'' two_clients
       = (Normal, two_clients\<lparr>trace := [Send 2 ''MESSAGE:A:hi:there'' True,
                                        Send 1 ''MESSAGE_SENT'' True]\<rparr>)"
    by (simp add: send_message_def with_lock_def sock_send_def example_defs)
  with chat_frame_split [OF h, of "''A''" "''hi:there''" "[]"] h show ?thesis
    by (simp add: example_defs)
qed

text \<open>
  C8: \<open>broadcast_message sender content\<close>, the lock being free, attempts to send
  \<open>MESSAGE:<sender>:<content>\<close> to every registry entry except the one of \<open>sender\<close>, in
  registry order; a send that fails is swallowed and the remaining recipients are still
  served, the call ending normally. The sender's own socket (sockets being distinct)
  is sent nothing by the call.
\<close>

theorem broadcast_message_others:
  assumes "\<not> lock st"
  shows "broadcast_message sender content st =
     (Normal, st\<lparr>trace := trace st @
        map (\<lambda>(name, sock). Send sock (''MESSAGE:'' @ sender @ '':'' @ content) (can_send st sock))
          (filter (\<lambda>(name, sock). name \<noteq> sender) (clients st))\<rparr>)
   \<and> (map_of (clients st) sender = Some ss \<and> distinct (map snd (clients st)) \<longrightarrow>
        Send ss m ok \<notin> set (drop (length (trace st))
                               (trace (snd (broadcast_message sender content st)))))"
proof -
  have eq: "broadcast_message sender content st =
     (Normal, st\<lparr>trace := trace st @
        map (\<lambda>(name, sock). Send sock (''MESSAGE:'' @ sender @ '':'' @ content) (can_send st sock))
          (filter (\<lambda>(name, sock). name \<noteq> sender) (clients st))\<rparr>)"
    using assms
    by (simp add: broadcast_message_def with_lock_def message_loop_trace unlock_free)
  have "Send ss m ok \<notin> set (drop (length (trace st))
                               (trace (snd (broadcast_message sender content st))))"
    if s: "map_of (clients st) sender = Some ss" and d: "distinct (map snd (clients st))"
  proof
    assume "Send ss m ok \<in> set (drop (length (trace st))
                               (trace (snd (broadcast_message sender content st))))"
    then obtain name where "(name, ss) \<in> set (clients st)" and "name \<noteq> sender"
      by (auto simp: eq)
    moreover from s have "(sender, ss) \<in> set (clients st)" by (rule map_of_SomeD)
    ultimately show False using distinct_snd_key [OF d] by blast
  qed
  with eq show ?thesis by blast
qed

theorem broadcast_message_others_witness:
  "\<not> lock three_clients \<and> map_of (clients three_clients) ''A'' = Some 1
   \<and> distinct (map snd (clients three_clients))
   \<and> broadcast_message ''A'' ''hi'' three_clients =
       (Normal, three_clients\<lparr>trace := [Send 2 ''MESSAGE:A:hi'' False, Send 3 ''MESSAGE:A:hi'' True]\<rparr>)
   \<and> Send 1 ''MESSAGE:A:hi'' True \<notin> set (trace (snd (broadcast_message ''A'' ''hi'' three_clients)))"
proof -
  have h: "\<not> lock three_clients" by (simp add: example_defs)
  from broadcast_message_others [OF h, of "''A''" "''hi''" 1 "''MESSAGE:A:hi''" True] h
  show ?thesis
    by (simp add: example_defs)
qed

text \<open>
  C9: on a \<open>LIST\<close> frame from a registered requester \<open>R\<close>, the lock being free, the server
  sends one frame, to the socket of \<open>R\<close> only: \<open>CLIENT_LIST:<L>\<close>, where \<open>L\<close> is the
  comma-joined sequence, in registry order, of all registered names except \<open>R\<close>, or the
  literal \<open>No other clients\<close> when there is no other name. Nothing but the trace changes:
  the registry is as before.
\<close>

theorem list_reply:
  assumes "\<not> lock st" and "map_of (clients st) requester = Some rs"
  shows "dispatch requester sock ''LIST'' st =
     (Normal, st\<lparr>trace := trace st @
        [Send rs (''CLIENT_LIST:'' @
           (if filter (\<lambda>name. name \<noteq> requester) (map fst (clients st)) = []
            then ''No other clients''
            else join '','' (filter (\<lambda>name. name \<noteq> requester) (map fst (clients st)))))
           (can_send st rs)]\<rparr>)"
proof -
  have "dispatch requester sock ''LIST'' st = send_client_list requester st"
    by (simp add: dispatch_def startswith_def)
  with assms show ?thesis
    by (simp add: send_client_list_def with_lock_def try_send_def sock_send_def unlock_free Let_def)
qed

theorem list_reply_witness:
  "\<not> lock three_clients \<and> map_of (clients three_clients) ''B'' = Some 2
   \<and> dispatch ''B'' 2 ''LIST'' three_clients =
       (Normal, three_clients\<lparr>trace := [Send 2 ''CLIENT_LIST:A,C'' False]\<rparr>)
   \<and> dispatch ''A'' 1 ''LIST'' (two_clients\<lparr>clients := [(''A'', 1)]\<rparr>) =
       (Normal, two_clients\<lparr>clients := [(''A'', 1)],
                            trace := [Send 1 ''CLIENT_LIST:No other clients'' True]\<rparr>)"
proof -
  have h: "\<not> lock three_clients" "map_of (clients three_clients) ''B'' = Some 2"
    by (simp_all add: example_defs)
  have k: "\<not> lock (two_clients\<lparr>clients := [(''A'', 1)]\<rparr>)"
    "map_of (clients (two_clients\<lparr>clients := [(''A'', 1)]\<rparr>)) ''A'' = Some 1"
    by (simp_all add: example_defs)
  from list_reply [OF h, of 2] list_reply [OF k, of 1] h show ?thesis
    by (simp add: example_defs)
qed

text \<open>
  C10: self-unicast is permitted. For a registered client \<open>A\<close> on a writable socket (its
  name, as registration leaves it, stripped, and free of colons so that the frame
  addresses \<open>A\<close>), the frame \<open>CHAT:A:<msg>\<close> sent by \<open>A\<close> is not rejected: \<open>A\<close> receives
  \<open>MESSAGE:A:<msg>\<close> and then \<open>MESSAGE_SENT\<close>.
\<close>

theorem self_unicast:
  assumes "\<not> lock st" and "map_of (clients st) a = Some s" and "can_send st s"
    and "CHR '':'' \<notin> set a" and "strip a = a"
  shows "dispatch a s (''CHAT:'' @ a @ '':'' @ msg) st =
     (Normal, st\<lparr>trace := trace st @
        [Send s (''MESSAGE:'' @ a @ '':'' @ msg) True, Send s ''MESSAGE_SENT'' True]\<rparr>)"
  using assms(1,2,3,5)
  by (subst dispatch_chat [OF assms(4)])
     (simp add: send_message_def with_lock_def sock_send_def unlock_free)

theorem self_unicast_witness:
  "\<not> lock two_clients \<and> map_of (clients two_clients) ''A'' = Some 1 \<and> can_send two_clients 1
   \<and> CHR '':'' \<notin> set ''A'' \<and> strip ''A'' = ''A''
   \<and> dispatch ''A'' 1 ''CHAT:A:note to self'' two_clients =
       (Normal, two_clients\<lparr>trace := [Send 1 ''MESSAGE:A:note to self'' True,
                                       Send 1 ''MESSAGE_SENT'' True]\<rparr>)"
proof -
  have h: "\<not> lock two_clients" "map_of (clients two_clients) ''A'' = Some 1"
    "can_send two_clients 1" "CHR '':'' \<notin> set ''A''" "strip ''A'' = ''A''"
    by (simp_all add: example_defs)
  from self_unicast [OF h, of "''note to self''"] h show ?thesis
    by (simp add: example_defs)
qed

end
